theory Spec2Isabelle
  imports Complex_Main "HOL-Library.Multiset"
begin

section \<open>Python values used by xrpbot.py\<close>

subsection \<open>Strings\<close>

text \<open>
  A Python \<open>str\<close> is a sequence of Unicode code points and \<open>len\<close> counts code points.
  The markers of \<open>update_guild\<close> lie outside the range of \<^typ>\<open>char\<close>, so a string is
  modelled as the list of its code points.
\<close>

type_synonym ustr = "nat list"

definition ascii :: "string \<Rightarrow> ustr" where
  "ascii s = map of_char s"

text \<open>\<open>str(n)\<close> for a non-negative integer: its decimal digits, most significant first.\<close>

fun digits10 :: "nat \<Rightarrow> nat list" where
  "digits10 n = (if n < 10 then [n] else digits10 (n div 10) @ [n mod 10])"

declare digits10.simps [simp del]

definition str_nat :: "nat \<Rightarrow> ustr" where
  "str_nat n = map (\<lambda>d. 48 + d) (digits10 n)"

definition str_int :: "int \<Rightarrow> ustr" where
  "str_int i = (if i < 0 then ascii ''-'' @ str_nat (nat (- i)) else str_nat (nat i))"

text \<open>The number a list of decimal digits denotes.\<close>

definition val10 :: "nat list \<Rightarrow> nat" where
  "val10 ds = foldl (\<lambda>a d. 10 * a + d) 0 ds"

subsection \<open>Floats\<close>

text \<open>
  A Python \<open>float\<close> is an IEEE double. Every finite double is a rational number, and
  the operations of the program on floats (comparison with zero, truthiness, fixed-point
  formatting) are exact functions of that rational, so a finite float is modelled by its
  exact value. Negative zero, the infinities and NaN are kept apart because \<open>>=\<close>
  and \<open>format\<close> treat them specially.
\<close>

datatype pyfloat = Fin rat | NegZero | PosInf | NegInf | NaN

text \<open>\<open>x >= 0\<close> on a float.\<close>

fun py_ge0 :: "pyfloat \<Rightarrow> bool" where
  "py_ge0 (Fin q) = (0 \<le> q)"
| "py_ge0 NegZero = True"
| "py_ge0 PosInf = True"
| "py_ge0 NegInf = False"
| "py_ge0 NaN = False"

text \<open>
  Rounding of a non-negative rational to the nearest integer, ties to even: the rounding
  Python's \<open>format\<close> applies to the exact value of the double.
\<close>

definition round_half_even :: "rat \<Rightarrow> nat" where
  "round_half_even q =
     (let f = nat \<lfloor>q\<rfloor>; r = q - of_int \<lfloor>q\<rfloor>
      in if r < 1 / 2 then f
         else if 1 / 2 < r then f + 1
         else if even f then f else f + 1)"

definition zero_pad :: "nat \<Rightarrow> ustr \<Rightarrow> ustr" where
  "zero_pad d s = replicate (d - length s) 48 @ s"

text \<open>Fixed-point text of a magnitude with \<open>d > 0\<close> decimals (format type \<open>f\<close>).\<close>

definition fmt_fixed :: "nat \<Rightarrow> rat \<Rightarrow> ustr" where
  "fmt_fixed d q =
     (let n = round_half_even (q * 10 ^ d)
      in str_nat (n div 10 ^ d) @ ascii ''.'' @ zero_pad d (str_nat (n mod 10 ^ d)))"

text \<open>
  \<open>format(x, ".df")\<close> (\<open>always_sign = False\<close>) and \<open>format(x, "+.df")\<close> (\<open>always_sign = True\<close>).
  The sign of a finite value is kept even when the digits round to zero; NaN never
  shows a minus sign.
\<close>

fun format_f :: "bool \<Rightarrow> nat \<Rightarrow> pyfloat \<Rightarrow> ustr" where
  "format_f always_sign d (Fin q) =
     (if q < 0 then ascii ''-'' else if always_sign then ascii ''+'' else []) @ fmt_fixed d \<bar>q\<bar>"
| "format_f always_sign d NegZero = ascii ''-'' @ fmt_fixed d 0"
| "format_f always_sign d PosInf = (if always_sign then ascii ''+'' else []) @ ascii ''inf''"
| "format_f always_sign d NegInf = ascii ''-inf''"
| "format_f always_sign d NaN = (if always_sign then ascii ''+'' else []) @ ascii ''nan''"

section \<open>Display strings of \<open>update_guild\<close>\<close>

text \<open>The two markers: U+1F7E2 (green circle) and U+1F534 (red circle).\<close>

definition up_marker :: nat where
  "up_marker = 0x1F7E2"

definition down_marker :: nat where
  "down_marker = 0x1F534"

text \<open>\<^verbatim>\<open>emoji = "<green>" if change_24h >= 0 else "<red>"\<close>\<close>

definition emoji :: "pyfloat \<Rightarrow> nat" where
  "emoji change_24h = (if py_ge0 change_24h then up_marker else down_marker)"

text \<open>\<^verbatim>\<open>nickname = f"${price:.3f} {emoji}"\<close>\<close>

definition format_nickname :: "pyfloat \<Rightarrow> pyfloat \<Rightarrow> ustr" where
  "format_nickname price change_24h =
     ascii ''$'' @ format_f False 3 price @ ascii '' '' @ [emoji change_24h]"

text \<open>\<^verbatim>\<open>if len(nickname) > 32: nickname = nickname[:32]\<close>\<close>

definition truncate_nickname :: "ustr \<Rightarrow> ustr" where
  "truncate_nickname nickname = (if length nickname > 32 then take 32 nickname else nickname)"

definition nickname_of :: "pyfloat \<Rightarrow> pyfloat \<Rightarrow> ustr" where
  "nickname_of price change_24h = truncate_nickname (format_nickname price change_24h)"

text \<open>\<^verbatim>\<open>f"24h {change_24h:+.2f}%"\<close>\<close>

definition status_text :: "pyfloat \<Rightarrow> ustr" where
  "status_text change_24h = ascii ''24h '' @ format_f True 2 change_24h @ ascii ''%''"

section \<open>Exceptions\<close>

text \<open>
  The exception classes that the \<open>except\<close> clauses of the program tell apart, and the
  ones its own statements and the interpreter raise. \<open>Forbidden\<close> is discord.py's
  subclass of \<open>HTTPException\<close>; \<open>ClientError\<close> is aiohttp's; \<open>CancelledError\<close> is
  asyncio's and derives from \<open>BaseException\<close>, not from \<open>Exception\<close>. The texts of
  the exceptions that the interpreter raises are shortened.
\<close>

datatype exn_class =
    Forbidden | HTTPException | ClientError | TimeoutError | RuntimeError
  | KeyError | TypeError | ValueError | OverflowError | AssertionError | OSError
  | CancelledError

text \<open>An exception: its class and \<open>str(e)\<close>.\<close>

datatype exn = Exn (exn_cls: exn_class) (exn_str: ustr)

text \<open>\<open>isinstance(e, discord.HTTPException)\<close>\<close>

definition is_HTTPException :: "exn \<Rightarrow> bool" where
  "is_HTTPException e = (exn_cls e = HTTPException \<or> exn_cls e = Forbidden)"

text \<open>\<open>isinstance(e, discord.Forbidden)\<close>\<close>

definition is_Forbidden :: "exn \<Rightarrow> bool" where
  "is_Forbidden e = (exn_cls e = Forbidden)"

text \<open>\<open>isinstance(e, Exception)\<close>\<close>

definition is_Exception :: "exn \<Rightarrow> bool" where
  "is_Exception e = (exn_cls e \<noteq> CancelledError)"

text \<open>
  \<open>isinstance(e, (aiohttp.ClientError, asyncio.TimeoutError, RuntimeError))\<close>: the
  \<open>except\<close> clause of \<open>get_price_data\<close>.
\<close>

definition is_fetch_recoverable :: "exn \<Rightarrow> bool" where
  "is_fetch_recoverable e =
     (exn_cls e = ClientError \<or> exn_cls e = TimeoutError \<or> exn_cls e = RuntimeError)"

section \<open>The price API\<close>

text \<open>
  The value \<open>resp.json()\<close> returns. An object is the parsed \<open>dict\<close>, as the list of its
  items.
\<close>

datatype json =
    JNull | JBool bool | JInt int | JFloat pyfloat | JStr ustr
  | JArr "json list" | JObj "(ustr \<times> json) list"

text \<open>
  What one request of \<open>_fetch_one_id\<close> meets: \<open>session.get\<close> raises, or a response
  arrives with a status, whose \<open>json()\<close> raises or returns a value.
\<close>

datatype http_outcome = Failed exn | Response int "exn + json"

text \<open>
  What lies outside one call of \<open>update_guild\<close>: the interpreter's conversions of an
  \<open>int\<close> and of a \<open>str\<close> to \<open>float\<close> (\<open>None\<close> where \<open>float()\<close> raises), and the
  outcomes of the calls to the price API and to the chat platform. \<open>http_get coin k\<close>
  is what the request for \<open>coin\<close> meets when \<open>k\<close> requests were made before it.
\<close>

record member =
  change_nickname :: bool
  manage_nicknames :: bool

record ext =
  float_of_int :: "int \<Rightarrow> pyfloat option"
  float_of_str :: "ustr \<Rightarrow> pyfloat option"
  session_ready :: bool
  http_get :: "ustr \<Rightarrow> nat \<Rightarrow> http_outcome"
  fetch_member_result :: "exn + member"
  edit_result :: "exn option"
  presence_result :: "exn option"

text \<open>\<open>row[key]\<close>\<close>

fun subscript :: "json \<Rightarrow> string \<Rightarrow> exn + json" where
  "subscript (JObj kvs) key =
     (case map_of kvs (ascii key) of
        Some v \<Rightarrow> Inr v
      | None \<Rightarrow> Inl (Exn KeyError (ascii [CHR 0x27] @ ascii key @ ascii [CHR 0x27])))"
| "subscript (JArr xs) key =
     Inl (Exn TypeError (ascii ''list indices must be integers or slices, not str''))"
| "subscript (JStr s) key =
     Inl (Exn TypeError (ascii ''string indices must be integers''))"
| "subscript v key = Inl (Exn TypeError (ascii ''object is not subscriptable''))"

text \<open>\<open>float(v)\<close>\<close>

fun py_float :: "ext \<Rightarrow> json \<Rightarrow> exn + pyfloat" where
  "py_float x (JFloat f) = Inr f"
| "py_float x (JInt i) =
     (case float_of_int x i of
        Some f \<Rightarrow> Inr f
      | None \<Rightarrow> Inl (Exn OverflowError (ascii ''int too large to convert to float'')))"
| "py_float x (JBool b) = Inr (Fin (if b then 1 else 0))"
| "py_float x (JStr s) =
     (case float_of_str x s of
        Some f \<Rightarrow> Inr f
      | None \<Rightarrow> Inl (Exn ValueError (ascii ''could not convert string to float'')))"
| "py_float x v =
     Inl (Exn TypeError (ascii ''float() argument must be a string or a real number''))"

text \<open>
  \<open>_fetch_one_id\<close>, from the outcome of its request on: the status check, the payload
  check, then the two fields of the first record, price first.
\<close>

definition parse_row :: "ext \<Rightarrow> json \<Rightarrow> exn + (pyfloat \<times> pyfloat)" where
  "parse_row x row =
     (case subscript row ''current_price'' of
        Inl e \<Rightarrow> Inl e
      | Inr pv \<Rightarrow>
          (case py_float x pv of
             Inl e \<Rightarrow> Inl e
           | Inr price \<Rightarrow>
               (case subscript row ''price_change_percentage_24h'' of
                  Inl e \<Rightarrow> Inl e
                | Inr cv \<Rightarrow>
                    (case py_float x cv of
                       Inl e \<Rightarrow> Inl e
                     | Inr change \<Rightarrow> Inr (price, change)))))"

fun fetch_one_id :: "ext \<Rightarrow> http_outcome \<Rightarrow> exn + (pyfloat \<times> pyfloat)" where
  "fetch_one_id x (Failed e) = Inl e"
| "fetch_one_id x (Response status body) =
     (if status \<noteq> 200 then Inl (Exn RuntimeError (ascii ''HTTP '' @ str_int status))
      else case body of
        Inl e \<Rightarrow> Inl e
      | Inr (JArr (row # rest)) \<Rightarrow> parse_row x row
      | Inr data \<Rightarrow> Inl (Exn RuntimeError (ascii ''empty or invalid payload'')))"

section \<open>Effects\<close>

text \<open>
  What a run does to the outside is recorded as the list of its events, in order:
  a sleep, a request to the price API, a log record, the start of one call of
  \<open>get_price_data\<close>, and the calls to the chat platform (with the identifier of the
  community, and whether the call succeeded). The \<open>reason\<close> of the nickname edit is the
  same constant in every call and is left out.
\<close>

datatype level = DEBUG | INFO | WARNING | ERROR

datatype event =
    Sleep rat
  | HttpGet ustr
  | Log level ustr
  | Acquire
  | FetchMember nat
  | EditNick nat ustr bool
  | ChangePresence ustr bool

section \<open>\<open>get_price_data\<close>\<close>

text \<open>\<open>backoffs = [0, 1.5, 3.0, 5.0]\<close>\<close>

definition backoffs :: "rat list" where
  "backoffs = [0, 3 / 2, 3, 5]"

text \<open>\<open>enumerate(backoffs, start=1)\<close>\<close>

definition enumerate_backoffs :: "(nat \<times> rat) list" where
  "enumerate_backoffs = zip [1 ..< Suc (length backoffs)] backoffs"

text \<open>How a loop body leaves: to the next iteration, by \<open>return\<close>, or by an exception.\<close>

datatype 'a ctl = Next | Return 'a | Raise exn

text \<open>\<open>str(last_err)\<close>\<close>

definition str_opt_exn :: "exn option \<Rightarrow> ustr" where
  "str_opt_exn e = (case e of None \<Rightarrow> ascii ''None'' | Some x \<Rightarrow> exn_str x)"

text \<open>
  The inner loop over the attempts for one identifier. The arguments after the schedule
  are the number of requests made so far and \<open>last_err\<close>; the result carries the events,
  both again, and how the loop left. \<open>COIN_IDS[0]\<close> is read inside the loop over
  \<open>COIN_IDS\<close>, where the list is not empty.
\<close>

fun try_attempts ::
  "ext \<Rightarrow> ustr list \<Rightarrow> ustr \<Rightarrow> (nat \<times> rat) list \<Rightarrow> nat \<Rightarrow> exn option
     \<Rightarrow> event list \<times> nat \<times> exn option \<times> (pyfloat \<times> pyfloat) ctl" where
  "try_attempts x coin_ids coin_id [] k last_err = ([], k, last_err, Next)"
| "try_attempts x coin_ids coin_id ((attempt, delay) # rest) k last_err =
     (let pre = (if delay \<noteq> 0 then [Sleep delay] else []) @ [HttpGet coin_id]
      in case fetch_one_id x (http_get x coin_id k) of
           Inr r \<Rightarrow>
             (pre @ (if coin_id \<noteq> hd coin_ids
                     then [Log INFO (ascii ''Using fallback CoinGecko id '' @ ascii [CHR 0x27]
                                      @ coin_id @ ascii [CHR 0x27] @ ascii ''.'')]
                     else []),
              Suc k, last_err, Return r)
         | Inl e \<Rightarrow>
             if is_fetch_recoverable e
             then (case try_attempts x coin_ids coin_id rest (Suc k) (Some e) of
                     (evs, k', last_err', c) \<Rightarrow>
                       (pre @ [Log WARNING (ascii ''CoinGecko error for id '' @ ascii [CHR 0x27]
                                 @ coin_id @ ascii [CHR 0x27] @ ascii '' (attempt ''
                                 @ str_nat attempt @ ascii ''): '' @ exn_str e)] @ evs,
                        k', last_err', c))
             else (pre, Suc k, last_err, Raise e))"

text \<open>The outer loop over \<open>COIN_IDS\<close>, and the \<open>raise\<close> after it.\<close>

fun try_sources ::
  "ext \<Rightarrow> ustr list \<Rightarrow> ustr list \<Rightarrow> nat \<Rightarrow> exn option
     \<Rightarrow> event list \<times> (exn + pyfloat \<times> pyfloat)" where
  "try_sources x coin_ids [] k last_err =
     ([], Inl (Exn RuntimeError
                (ascii ''Failed to fetch XRP price after retries: '' @ str_opt_exn last_err)))"
| "try_sources x coin_ids (coin_id # rest) k last_err =
     (case try_attempts x coin_ids coin_id enumerate_backoffs k last_err of
        (evs, k', last_err', Next) \<Rightarrow>
          (case try_sources x coin_ids rest k' last_err' of (evs', r) \<Rightarrow> (evs @ evs', r))
      | (evs, k', last_err', Return r) \<Rightarrow> (evs, Inr r)
      | (evs, k', last_err', Raise e) \<Rightarrow> (evs, Inl e))"

definition get_price_data :: "ustr list \<Rightarrow> ext \<Rightarrow> event list \<times> (exn + pyfloat \<times> pyfloat)" where
  "get_price_data COIN_IDS x = try_sources x COIN_IDS COIN_IDS 0 None"

section \<open>\<open>update_guild\<close>\<close>

record guild =
  guild_id :: nat
  guild_name :: ustr
  guild_me :: "member option"

text \<open>The prefix \<open>[{guild.name}] \<close> of every log record of \<open>update_guild\<close>.\<close>

definition tag :: "guild \<Rightarrow> ustr" where
  "tag g = ascii ''['' @ guild_name g @ ascii ''] ''"

text \<open>\<open>me = guild.me or await guild.fetch_member(client.user.id)\<close>\<close>

definition resolve_me :: "ext \<Rightarrow> guild \<Rightarrow> event list \<times> (exn + member)" where
  "resolve_me x g =
     (case guild_me g of
        Some m \<Rightarrow> ([], Inr m)
      | None \<Rightarrow> ([FetchMember (guild_id g)], fetch_member_result x))"

text \<open>
  The call of \<open>client.change_presence\<close>: the event, and the exception it raises if any.
\<close>

definition change_presence :: "ext \<Rightarrow> ustr \<Rightarrow> event list \<times> exn option" where
  "change_presence x name = ([ChangePresence name (presence_result x = None)], presence_result x)"

text \<open>
  The first \<open>try\<close> block around the price fetch, with its \<open>assert\<close>, and the handler
  \<open>except Exception\<close> with its nested \<open>try\<close> around the degraded status.
  \<open>Inl\<close> is an exception that leaves \<open>update_guild\<close>, \<open>Inr None\<close> the handler's
  \<open>return\<close>, \<open>Inr (Some sample)\<close> the sample.
\<close>

definition fetch_step ::
  "ustr list \<Rightarrow> ext \<Rightarrow> guild \<Rightarrow> event list \<times> (exn + (pyfloat \<times> pyfloat) option)" where
  "fetch_step COIN_IDS x g =
     (case (if session_ready x then (case get_price_data COIN_IDS x of (evs, r) \<Rightarrow> (Acquire # evs, r))
            else ([], Inl (Exn AssertionError (ascii ''HTTP session not initialized'')))) of
        (evs, Inr sample) \<Rightarrow> (evs, Inr (Some sample))
      | (evs, Inl e) \<Rightarrow>
          if is_Exception e
          then (case change_presence x (ascii ''API error'') of
                  (pevs, pres) \<Rightarrow>
                    (evs @ [Log WARNING (tag g @ ascii ''Price fetch failed: '' @ exn_str e)] @ pevs,
                     case pres of
                       None \<Rightarrow> Inr None
                     | Some e' \<Rightarrow> if is_Exception e' then Inr None else Inl e'))
          else (evs, Inl e))"

text \<open>
  The part of \<open>update_guild\<close> after the sample is there: the nickname, its edit with
  the two handlers, the status with its handler, and the final log record.
\<close>

definition apply_step :: "ext \<Rightarrow> guild \<Rightarrow> pyfloat \<Rightarrow> pyfloat \<Rightarrow> event list \<times> exn option" where
  "apply_step x g price change_24h =
     (let nickname = nickname_of price change_24h;
          edit = [EditNick (guild_id g) nickname (edit_result x = None)];
          status = status_text change_24h;
          final = [Log INFO (tag g @ ascii ''Nick '' @ [0x2192] @ ascii '' '' @ nickname
                             @ ascii '' | 24h '' @ [0x2192] @ ascii '' ''
                             @ format_f True 2 change_24h @ ascii ''%'')]
      in case (case edit_result x of
                 None \<Rightarrow> (edit, None)
               | Some e \<Rightarrow>
                   if is_Forbidden e
                   then (edit @ [Log INFO (tag g @ ascii
                           ''Forbidden: role hierarchy/permissions block nickname change.'')], None)
                   else if is_HTTPException e
                   then (edit @ [Log WARNING (tag g @ ascii ''HTTP error updating nick: '' @ exn_str e)],
                         None)
                   else (edit, Some e)) of
           (evs, Some e) \<Rightarrow> (evs, Some e)
         | (evs, None) \<Rightarrow>
             (case change_presence x status of
                (pevs, None) \<Rightarrow> (evs @ pevs @ final, None)
              | (pevs, Some e) \<Rightarrow>
                  if is_Exception e
                  then (evs @ pevs @ [Log DEBUG (tag g @ ascii ''Could not set presence: '' @ exn_str e)]
                          @ final, None)
                  else (evs @ pevs, Some e)))"

text \<open>
  \<open>update_guild\<close>: the events, and the exception that leaves the call (\<open>None\<close> when
  it returns).
\<close>

definition update_guild :: "ustr list \<Rightarrow> ext \<Rightarrow> guild \<Rightarrow> event list \<times> exn option" where
  "update_guild COIN_IDS x g =
     (case resolve_me x g of
        (evs0, Inl e) \<Rightarrow>
          if is_HTTPException e
          then (evs0 @ [Log WARNING (tag g @ ascii ''Could not fetch bot member: '' @ exn_str e)], None)
          else (evs0, Some e)
      | (evs0, Inr me) \<Rightarrow>
          if \<not> (change_nickname me \<or> manage_nicknames me)
          then (evs0 @ [Log INFO (tag g @ ascii
                  ''Missing permission: Change Nickname (or Manage Nicknames).'')], None)
          else (case fetch_step COIN_IDS x g of
                  (evs1, Inl e) \<Rightarrow> (evs0 @ evs1, Some e)
                | (evs1, Inr None) \<Rightarrow> (evs0 @ evs1, None)
                | (evs1, Inr (Some (price, change_24h))) \<Rightarrow>
                    (case apply_step x g price change_24h of
                       (evs2, r) \<Rightarrow> (evs0 @ evs1 @ evs2, r))))"

section \<open>\<open>updater_loop\<close>\<close>

text \<open>The configuration read from the environment at import time.\<close>

record config =
  GUILD_ID :: "int option"
  COIN_IDS :: "ustr list"
  INTERVAL_SECONDS :: int

text \<open>
  What one iteration of the loop meets: \<open>client.is_closed()\<close> at the loop test, the
  joined communities \<open>client.guilds\<close>, an exception raised while the targets are looked up
  (if any), and for each community the outside of its \<open>update_guild\<close> call.
\<close>

record tick_env =
  is_closed :: bool
  guilds :: "guild list"
  resolve_failure :: "exn option"
  ext_of :: "nat \<Rightarrow> ext"

text \<open>
  The \<open>if GUILD_ID: ... else: ...\<close> statement. An unset identifier and the identifier 0
  are both false. \<open>client.get_guild\<close> looks the identifier up among the joined communities.
\<close>

definition resolve_targets :: "config \<Rightarrow> tick_env \<Rightarrow> event list \<times> guild list" where
  "resolve_targets cfg env =
     (if GUILD_ID cfg \<noteq> None \<and> GUILD_ID cfg \<noteq> Some 0
      then (case find (\<lambda>g. Some (int (guild_id g)) = GUILD_ID cfg) (guilds env) of
              Some g \<Rightarrow> ([], [g])
            | None \<Rightarrow>
                ([Log INFO (ascii ''Configured GUILD_ID not found yet. Is the bot in that server?'')],
                 []))
      else ([], guilds env))"

subsection \<open>\<open>asyncio.gather\<close>\<close>

text \<open>
  \<open>asyncio.gather(*aws)\<close> without \<open>return_exceptions\<close> wraps every coroutine in a task;
  the tasks run interleaved on the one event loop. The awaiting caller resumes when all
  tasks are done, or as soon as the first task raises: that exception is propagated to
  the caller, and the other tasks are not cancelled and run on.

  The interleaving is modelled by turns: in every round each unfinished task, in the order
  of the arguments, performs its next event. A task that raises does so at the end of
  its last event. \<open>first_raise\<close> finds the round after which the first exception is there.
\<close>

type_synonym task = "event list \<times> exn option"

fun first_raise :: "task list \<Rightarrow> (nat \<times> exn) option" where
  "first_raise [] = None"
| "first_raise ((evs, None) # ts) = first_raise ts"
| "first_raise ((evs, Some e) # ts) =
     (case first_raise ts of
        None \<Rightarrow> Some (length evs, e)
      | Some (n, e') \<Rightarrow> if n < length evs then Some (n, e') else Some (length evs, e))"

text \<open>
  The result: the events before the caller resumes, the exception propagated to it, and
  the events of the tasks still running then.
\<close>

definition gather :: "task list \<Rightarrow> event list \<times> exn option \<times> event list" where
  "gather tasks =
     (let rounds = transpose (map fst tasks)
      in case first_raise tasks of
           None \<Rightarrow> (concat rounds, None, [])
         | Some (n, e) \<Rightarrow> (concat (take n rounds), Some e, concat (drop n rounds)))"

subsection \<open>One iteration\<close>

definition tasks_of :: "config \<Rightarrow> tick_env \<Rightarrow> guild list \<Rightarrow> task list" where
  "tasks_of cfg env targets =
     map (\<lambda>g. update_guild (COIN_IDS cfg) (ext_of env (guild_id g)) g) targets"

text \<open>
  The body of the \<open>try\<close> statement: the events until the body is left, the exception that
  leaves it (if any), and the events of the reconciliations still running then.
\<close>

definition try_body :: "config \<Rightarrow> tick_env \<Rightarrow> event list \<times> exn option \<times> event list" where
  "try_body cfg env =
     (case resolve_failure env of
        Some e \<Rightarrow> ([], Some e, [])
      | None \<Rightarrow>
          (case resolve_targets cfg env of
             (levs, targets) \<Rightarrow>
               if targets = [] then (levs @ [Log INFO (ascii ''No guilds to update yet.'')], None, [])
               else (case gather (tasks_of cfg env targets) of
                       (evs, r, bg) \<Rightarrow> (levs @ evs, r, bg))))"

text \<open>
  The \<open>try\<close> statement with its handler \<open>except Exception\<close>: the events up to the sleep,
  the exception that leaves the loop (if any), and the events of the reconciliations still
  running.
\<close>

definition tick :: "config \<Rightarrow> tick_env \<Rightarrow> event list \<times> exn option \<times> event list" where
  "tick cfg env =
     (case try_body cfg env of
        (evs, None, bg) \<Rightarrow> (evs, None, bg)
      | (evs, Some e, bg) \<Rightarrow>
          if is_Exception e
          then (evs @ [Log ERROR (ascii ''Updater loop error: '' @ exn_str e)], None, bg)
          else (evs, Some e, bg))"

subsection \<open>The loop\<close>




section \<open>The state of the chat platform\<close>

text \<open>
  The presence belongs to the client, one for all communities; a nickname belongs to the
  bot's membership in one community. Only successful calls change the state.
\<close>

record platform =
  presence :: "ustr option"
  nick :: "nat \<Rightarrow> ustr option"

fun apply_event :: "platform \<Rightarrow> event \<Rightarrow> platform" where
  "apply_event s (ChangePresence name ok) = (if ok then s\<lparr>presence := Some name\<rparr> else s)"
| "apply_event s (EditNick gid nickname ok) =
     (if ok then s\<lparr>nick := (nick s)(gid \<mapsto> nickname)\<rparr> else s)"
| "apply_event s ev = s"

definition apply_events :: "platform \<Rightarrow> event list \<Rightarrow> platform" where
  "apply_events s evs = foldl apply_event s evs"

subsection \<open>Observations on event lists\<close>

fun is_acquire :: "event \<Rightarrow> bool" where
  "is_acquire Acquire = True"
| "is_acquire ev = False"

fun is_http_get :: "event \<Rightarrow> bool" where
  "is_http_get (HttpGet c) = True"
| "is_http_get ev = False"

fun is_edit_nick :: "event \<Rightarrow> bool" where
  "is_edit_nick (EditNick gid n ok) = True"
| "is_edit_nick ev = False"

fun is_change_presence :: "event \<Rightarrow> bool" where
  "is_change_presence (ChangePresence n ok) = True"
| "is_change_presence ev = False"

text \<open>The severity of a log record as a number, as the \<open>logging\<close> module orders them.\<close>

fun levelno :: "level \<Rightarrow> nat" where
  "levelno DEBUG = 10"
| "levelno INFO = 20"
| "levelno WARNING = 30"
| "levelno ERROR = 40"

fun above_info :: "event \<Rightarrow> bool" where
  "above_info (Log l m) = (levelno INFO < levelno l)"
| "above_info ev = False"

text \<open>The events \<open>get_price_data\<close> can produce.\<close>

fun is_fetch_event :: "event \<Rightarrow> bool" where
  "is_fetch_event (Sleep d) = True"
| "is_fetch_event (HttpGet c) = True"
| "is_fetch_event (Log l m) = True"
| "is_fetch_event ev = False"


text \<open>
  Whether the reconciliation of a target passes the permission check, and whether it goes
  on to call \<open>get_price_data\<close>.
\<close>

definition permitted :: "ext \<Rightarrow> guild \<Rightarrow> bool" where
  "permitted x g =
     (case snd (resolve_me x g) of
        Inl e \<Rightarrow> False
      | Inr me \<Rightarrow> change_nickname me \<or> manage_nicknames me)"

definition reaches_fetch :: "ext \<Rightarrow> guild \<Rightarrow> bool" where
  "reaches_fetch x g = (permitted x g \<and> session_ready x)"

section \<open>Example inputs\<close>

text \<open>Concrete inputs at which the properties below are evaluated.\<close>

definition sample_row :: "pyfloat \<Rightarrow> pyfloat \<Rightarrow> json" where
  "sample_row p c =
     JObj [(ascii ''current_price'', JFloat p), (ascii ''price_change_percentage_24h'', JFloat c)]"

definition sample_member :: "bool \<Rightarrow> bool \<Rightarrow> member" where
  "sample_member cn mn = \<lparr>change_nickname = cn, manage_nicknames = mn\<rparr>"

definition sample_ext :: "http_outcome \<Rightarrow> exn option \<Rightarrow> ext" where
  "sample_ext out edit =
     \<lparr>float_of_int = (\<lambda>i. Some (Fin (of_int i))), float_of_str = (\<lambda>s. None),
      session_ready = True, http_get = (\<lambda>c k. out),
      fetch_member_result = Inr (sample_member True False),
      edit_result = edit, presence_result = None\<rparr>"

definition sample_guild :: "nat \<Rightarrow> member \<Rightarrow> guild" where
  "sample_guild i m = \<lparr>guild_id = i, guild_name = ascii ''g'', guild_me = Some m\<rparr>"

definition sample_ids :: "ustr list" where
  "sample_ids = [ascii ''ripple'', ascii ''xrp'']"

text \<open>
  A configuration with one source, and an iteration over two communities with the
  outside of each.
\<close>

definition sample_config :: config where
  "sample_config = \<lparr>GUILD_ID = None, COIN_IDS = [ascii ''xrp''], INTERVAL_SECONDS = 60\<rparr>"

definition sample_env :: "ext \<Rightarrow> ext \<Rightarrow> tick_env" where
  "sample_env x1 x2 =
     \<lparr>is_closed = False,
      guilds = [sample_guild 7 (sample_member True False), sample_guild 8 (sample_member True False)],
      resolve_failure = None,
      ext_of = (\<lambda>i. if i = 7 then x1 else x2)\<rparr>"

section \<open>Decimal digits and rounding\<close>

lemma digits10_lt10: "d \<in> set (digits10 n) \<Longrightarrow> d < 10"
proof (induction n rule: digits10.induct)
  case (1 n)
  then show ?case
    by (subst (asm) (2) digits10.simps) (auto split: if_splits)
qed

lemma val10_snoc: "val10 (ds @ [d]) = 10 * val10 ds + d"
  by (simp add: val10_def)

lemma val10_digits10: "val10 (digits10 n) = n"
proof (induction n rule: digits10.induct)
  case (1 n)
  show ?case
  proof (cases "n < 10")
    case True
    then show ?thesis by (subst digits10.simps) (simp add: val10_def)
  next
    case False
    with 1 have "val10 (digits10 (n div 10)) = n div 10" by simp
    with False show ?thesis
      by (subst digits10.simps) (simp add: val10_snoc)
  qed
qed

lemma digits10_small: "n < 10 \<Longrightarrow> digits10 n = [n]"
  by (subst digits10.simps) simp

lemma digits10_step: "10 \<le> n \<Longrightarrow> digits10 n = digits10 (n div 10) @ [n mod 10]"
  by (subst digits10.simps) simp

lemma zero_pad3: 
  assumes "m < 1000"
  shows "zero_pad 3 (str_nat m) = map (\<lambda>d. 48 + d) [m div 100, m div 10 mod 10, m mod 10]"
proof -
  consider "m < 10" | "10 \<le> m" "m < 100" | "100 \<le> m"
    by linarith
  then show ?thesis
  proof cases
    case 1
    then show ?thesis
      by (simp add: zero_pad_def str_nat_def digits10_small numeral_3_eq_3)
  next
    case 2
    then have "m div 10 < 10" by simp
    with 2 show ?thesis
      by (simp add: zero_pad_def str_nat_def digits10_step digits10_small)
  next
    case 3
    with assms have a: "10 \<le> m" and b: "10 \<le> m div 10" and c: "m div 10 div 10 < 10"
      by simp_all
    have d: "m div 10 div 10 = m div 100"
      by (simp add: div_mult2_eq[symmetric])
    show ?thesis
      using c d
      by (simp add: zero_pad_def str_nat_def digits10_step[OF a] digits10_step[OF b] digits10_small)
  qed
qed

lemma round_half_even_bound:
  assumes "0 \<le> q"
  shows "\<bar>of_nat (round_half_even q) - q\<bar> \<le> 1 / 2"
proof -
  have f0: "0 \<le> \<lfloor>q\<rfloor>" using assms by simp
  then have n: "(of_nat (nat \<lfloor>q\<rfloor>) :: rat) = of_int \<lfloor>q\<rfloor>"
    by simp
  have lo: "of_int \<lfloor>q\<rfloor> \<le> q" and hi: "q < of_int \<lfloor>q\<rfloor> + 1"
    by linarith+
  show ?thesis
    using lo hi n
    by (auto simp: round_half_even_def Let_def abs_le_iff)
qed

lemma round_half_even_unique:
  assumes "0 \<le> q" and "of_nat n - 1 / 2 < q" and "q < of_nat n + 1 / 2"
  shows "round_half_even q = n"
proof (cases "of_nat n \<le> q")
  case True
  then have "\<lfloor>q\<rfloor> = int n"
    using assms by (intro floor_unique) auto
  then show ?thesis
    using assms True by (simp add: round_half_even_def Let_def)
next
  case False
  then have pos: "0 < n"
    using assms by (cases n) auto
  have fl: "\<lfloor>q\<rfloor> = int n - 1"
    using assms False by (intro floor_unique) auto
  have "nat (int n - 1) + 1 = n" using pos by simp
  then show ?thesis
    using assms False fl by (simp add: round_half_even_def Let_def)
qed

lemma mod1000_digits:
  "(n::nat) mod 1000 div 100 = n div 100 mod 10"
  "(n::nat) mod 1000 div 10 mod 10 = n div 10 mod 10"
  "(n::nat) mod 1000 mod 10 = n mod 10"
proof -
  have a: "n mod (100 * 10) = 100 * (n div 100 mod 10) + n mod 100"
    by (rule mod_mult2_eq)
  show "n mod 1000 div 100 = n div 100 mod 10"
    using a by simp
  have b: "n mod (10 * 100) = 10 * (n div 10 mod 100) + n mod 10"
    by (rule mod_mult2_eq)
  have c: "n div 10 mod 100 mod 10 = n div 10 mod 10"
    by (simp add: mod_mod_cancel)
  show "n mod 1000 div 10 mod 10 = n div 10 mod 10"
    using b c by simp
  show "n mod 1000 mod 10 = n mod 10"
    by (simp add: mod_mod_cancel)
qed

lemma fmt_fixed_3:
  "fmt_fixed 3 q =
     str_nat (round_half_even (q * 1000) div 1000) @ ascii ''.''
       @ map (\<lambda>d. 48 + d) [round_half_even (q * 1000) div 100 mod 10,
                              round_half_even (q * 1000) div 10 mod 10,
                              round_half_even (q * 1000) mod 10]"
proof -
  have "zero_pad 3 (str_nat (round_half_even (q * 1000) mod 1000)) =
          map (\<lambda>d. 48 + d) [round_half_even (q * 1000) div 100 mod 10,
                              round_half_even (q * 1000) div 10 mod 10,
                              round_half_even (q * 1000) mod 10]"
    by (simp add: zero_pad3 mod1000_digits)
  then show ?thesis
    by (simp add: fmt_fixed_def Let_def)
qed

lemma val10_str_nat: "val10 (map (\<lambda>c. c - 48) (str_nat m)) = m"
  by (simp add: str_nat_def comp_def val10_digits10)

section \<open>The nickname\<close>

lemma round_1235: "round_half_even (694995494495815 / 562949953421312 * 1000) = 1235"
  by (rule round_half_even_unique) simp_all

lemma round_decimal_1235: "round_half_even (123456 / 100000 * 1000) = 1235"
  by (rule round_half_even_unique) simp_all

lemma round_500: "round_half_even (1 / 2 * 1000) = 500"
  by (rule round_half_even_unique) simp_all

lemma fmt_1235: "fmt_fixed 3 (694995494495815 / 562949953421312) = ascii ''1.235''"
  unfolding fmt_fixed_3 round_1235 by (simp add: str_nat_def digits10_small ascii_def)

lemma fmt_decimal_1235: "fmt_fixed 3 (123456 / 100000) = ascii ''1.235''"
  unfolding fmt_fixed_3 round_decimal_1235 by (simp add: str_nat_def digits10_small ascii_def)

lemma fmt_500: "fmt_fixed 3 (1 / 2) = ascii ''0.500''"
  unfolding fmt_fixed_3 round_500 by (simp add: str_nat_def digits10_small ascii_def)

text \<open>
  C4. The nickname that \<open>update_guild\<close> formats for a finite price is the dollar sign, the
  price rounded to 3 decimal places (its sign if negative, the integer digits, a point and
  exactly three decimals, denoting a number within half a thousandth of the price), a space
  and the marker: the up marker iff the 24h change is \<open>>= 0\<close>. The nickname applied is
  its first 32 code points. The two examples of the specification come out as it writes
  them, at the doubles nearest to 1.23456 and to -3.10 as well as at the decimal numbers
  themselves.
\<close>

theorem nickname_format:
  "format_nickname (Fin q) change_24h =
      ascii ''$'' @ (if q < 0 then ascii ''-'' else [])
        @ str_nat (round_half_even (\<bar>q\<bar> * 1000) div 1000) @ ascii ''.''
        @ map (\<lambda>d. 48 + d) [round_half_even (\<bar>q\<bar> * 1000) div 100 mod 10,
                               round_half_even (\<bar>q\<bar> * 1000) div 10 mod 10,
                               round_half_even (\<bar>q\<bar> * 1000) mod 10]
        @ ascii '' '' @ [if py_ge0 change_24h then up_marker else down_marker]
   \<and> \<bar>of_nat (round_half_even (\<bar>q\<bar> * 1000)) / 1000 - \<bar>q\<bar>\<bar> \<le> 1 / 2000
   \<and> val10 (map (\<lambda>c. c - 48) (str_nat m)) = m
   \<and> emoji (Fin c) = (if 0 \<le> c then up_marker else down_marker)
   \<and> nickname_of price change = take 32 (format_nickname price change)
   \<and> nickname_of (Fin (694995494495815 / 562949953421312)) (Fin (5 / 2))
        = ascii ''$1.235 '' @ [up_marker]
   \<and> nickname_of (Fin (1 / 2)) (Fin (- 6980579422424269 / 2251799813685248))
        = ascii ''$0.500 '' @ [down_marker]
   \<and> nickname_of (Fin (123456 / 100000)) (Fin (250 / 100)) = ascii ''$1.235 '' @ [up_marker]
   \<and> nickname_of (Fin (1 / 2)) (Fin (- 310 / 100)) = ascii ''$0.500 '' @ [down_marker]"
proof -
  have shape: "format_nickname (Fin q) change_24h =
      ascii ''$'' @ (if q < 0 then ascii ''-'' else [])
        @ str_nat (round_half_even (\<bar>q\<bar> * 1000) div 1000) @ ascii ''.''
        @ map (\<lambda>d. 48 + d) [round_half_even (\<bar>q\<bar> * 1000) div 100 mod 10,
                               round_half_even (\<bar>q\<bar> * 1000) div 10 mod 10,
                               round_half_even (\<bar>q\<bar> * 1000) mod 10]
        @ ascii '' '' @ [if py_ge0 change_24h then up_marker else down_marker]"
    by (simp add: format_nickname_def fmt_fixed_3 emoji_def)
  have "\<bar>of_nat (round_half_even (\<bar>q\<bar> * 1000)) - \<bar>q\<bar> * 1000\<bar> \<le> 1 / 2"
    by (rule round_half_even_bound) simp
  then have near: "\<bar>of_nat (round_half_even (\<bar>q\<bar> * 1000)) / 1000 - \<bar>q\<bar>\<bar> \<le> 1 / 2000"
    by (simp add: abs_le_iff field_simps)
  have marker: "emoji (Fin c) = (if 0 \<le> c then up_marker else down_marker)"
    by (simp add: emoji_def)
  have e1: "nickname_of (Fin (694995494495815 / 562949953421312)) (Fin (5 / 2))
              = ascii ''$1.235 '' @ [up_marker]"
    by (simp add: nickname_of_def truncate_nickname_def format_nickname_def fmt_1235
        emoji_def ascii_def)
  have e2: "nickname_of (Fin (1 / 2)) (Fin (- 6980579422424269 / 2251799813685248))
              = ascii ''$0.500 '' @ [down_marker]"
    by (simp add: nickname_of_def truncate_nickname_def format_nickname_def fmt_500
        emoji_def ascii_def)
  have e3: "nickname_of (Fin (123456 / 100000)) (Fin (250 / 100)) = ascii ''$1.235 '' @ [up_marker]"
    using fmt_decimal_1235
    by (simp add: nickname_of_def truncate_nickname_def format_nickname_def emoji_def ascii_def)
  have e4: "nickname_of (Fin (1 / 2)) (Fin (- 310 / 100)) = ascii ''$0.500 '' @ [down_marker]"
    by (simp add: nickname_of_def truncate_nickname_def format_nickname_def fmt_500
        emoji_def ascii_def)
  have applied: "nickname_of price change = take 32 (format_nickname price change)"
    by (simp add: nickname_of_def truncate_nickname_def)
  show ?thesis
    using shape near marker applied e1 e2 e3 e4 val10_str_nat [of m] by blast
qed

section \<open>Events of \<open>get_price_data\<close> and of \<open>update_guild\<close>\<close>

lemma try_attempts_events:
  "ev \<in> set (fst (try_attempts x ids c sched k le)) \<Longrightarrow> is_fetch_event ev"
proof (induction sched arbitrary: k le ev)
  case Nil
  then show ?case by simp
next
  case (Cons a sched)
  obtain attempt delay where a: "a = (attempt, delay)" by (cases a)
  show ?case
  proof (cases "fetch_one_id x (http_get x c k)")
    case (Inr r)
    with Cons.prems a show ?thesis by (auto simp: Let_def split: if_splits)
  next
    case (Inl e)
    show ?thesis
    proof (cases "is_fetch_recoverable e")
      case False
      with Cons.prems a Inl show ?thesis by (auto simp: Let_def split: if_splits)
    next
      case True
      obtain evs k' le' r where rest: "try_attempts x ids c sched (Suc k) (Some e) = (evs, k', le', r)"
        by (metis prod_cases4)
      from Cons.IH[of _ "Suc k" "Some e"] rest have "\<And>ev. ev \<in> set evs \<Longrightarrow> is_fetch_event ev"
        by simp
      with Cons.prems a Inl True rest show ?thesis
        by (auto simp: Let_def split: if_splits)
    qed
  qed
qed

lemma try_sources_events:
  "ev \<in> set (fst (try_sources x ids cs k le)) \<Longrightarrow> is_fetch_event ev"
proof (induction cs arbitrary: k le ev)
  case Nil
  then show ?case by simp
next
  case (Cons c cs)
  obtain evs k' le' r where att: "try_attempts x ids c enumerate_backoffs k le = (evs, k', le', r)"
    by (metis prod_cases4)
  have evs: "\<And>ev. ev \<in> set evs \<Longrightarrow> is_fetch_event ev"
    using try_attempts_events[of _ x ids c enumerate_backoffs k le] att by simp
  show ?case
  proof (cases r)
    case Next
    obtain evs' r' where rest: "try_sources x ids cs k' le' = (evs', r')"
      by (cases "try_sources x ids cs k' le'")
    from Cons.IH[of _ k' le'] rest have "\<And>ev. ev \<in> set evs' \<Longrightarrow> is_fetch_event ev"
      by simp
    with Cons.prems att Next rest evs show ?thesis by auto
  next
    case (Return v)
    with Cons.prems att evs show ?thesis by auto
  next
    case (Raise e)
    with Cons.prems att evs show ?thesis by auto
  qed
qed

lemma get_price_data_events:
  "ev \<in> set (fst (get_price_data ids x)) \<Longrightarrow> is_fetch_event ev"
  unfolding get_price_data_def by (rule try_sources_events)

lemma filter_fetch_events:
  assumes "\<And>ev. P ev \<Longrightarrow> \<not> is_fetch_event ev"
  shows "filter P (fst (get_price_data ids x)) = []"
  using assms get_price_data_events by (auto simp: filter_empty_conv)

lemma get_price_data_no_platform:
  "filter is_edit_nick (fst (get_price_data ids x)) = []"
  "filter is_change_presence (fst (get_price_data ids x)) = []"
  "filter is_acquire (fst (get_price_data ids x)) = []"
proof -
  have "\<And>ev. is_edit_nick ev \<Longrightarrow> \<not> is_fetch_event ev"
    "\<And>ev. is_change_presence ev \<Longrightarrow> \<not> is_fetch_event ev"
    "\<And>ev. is_acquire ev \<Longrightarrow> \<not> is_fetch_event ev"
    subgoal for ev by (cases ev) auto
    subgoal for ev by (cases ev) auto
    subgoal for ev by (cases ev) auto
    done
  then show "filter is_edit_nick (fst (get_price_data ids x)) = []"
    "filter is_change_presence (fst (get_price_data ids x)) = []"
    "filter is_acquire (fst (get_price_data ids x)) = []"
    by (simp_all add: filter_fetch_events)
qed

lemma acquire_step:
  "(if session_ready x then (case get_price_data ids x of (evs, r) \<Rightarrow> (Acquire # evs, r))
    else ([], Inl e0)) = (evs, r) \<Longrightarrow>
   filter is_edit_nick evs = [] \<and> filter is_change_presence evs = []
   \<and> length (filter is_acquire evs) = (if session_ready x then 1 else 0)"
  using get_price_data_no_platform[of ids x]
  by (auto split: if_splits prod.splits)

lemma fetch_step_edit: "filter is_edit_nick (fst (fetch_step ids x g)) = []"
proof -
  obtain evs r where a:
    "(if session_ready x then (case get_price_data ids x of (evs, r) \<Rightarrow> (Acquire # evs, r))
      else ([], Inl (Exn AssertionError (ascii ''HTTP session not initialized'')))) = (evs, r)"
    by fastforce
  from acquire_step[OF a] show ?thesis
    unfolding fetch_step_def a
    by (auto simp: change_presence_def split: sum.splits option.splits)
qed

lemma fetch_step_acquire:
  "length (filter is_acquire (fst (fetch_step ids x g))) = (if session_ready x then 1 else 0)"
proof -
  obtain evs r where a:
    "(if session_ready x then (case get_price_data ids x of (evs, r) \<Rightarrow> (Acquire # evs, r))
      else ([], Inl (Exn AssertionError (ascii ''HTTP session not initialized'')))) = (evs, r)"
    by fastforce
  from acquire_step[OF a] show ?thesis
    unfolding fetch_step_def a
    by (auto simp: change_presence_def split: sum.splits option.splits)
qed

lemma fetch_step_presence:
  "length (filter is_change_presence (fst (fetch_step ids x g))) \<le> 1"
  "snd (fetch_step ids x g) = Inr (Some s) \<Longrightarrow> filter is_change_presence (fst (fetch_step ids x g)) = []"
proof -
  obtain evs r where a:
    "(if session_ready x then (case get_price_data ids x of (evs, r) \<Rightarrow> (Acquire # evs, r))
      else ([], Inl (Exn AssertionError (ascii ''HTTP session not initialized'')))) = (evs, r)"
    by fastforce
  from acquire_step[OF a] show "length (filter is_change_presence (fst (fetch_step ids x g))) \<le> 1"
    unfolding fetch_step_def a
    by (auto simp: change_presence_def split: sum.splits option.splits)
  from acquire_step[OF a] show "snd (fetch_step ids x g) = Inr (Some s) \<Longrightarrow> filter is_change_presence (fst (fetch_step ids x g)) = []"
    unfolding fetch_step_def a
    by (auto simp: change_presence_def split: sum.splits option.splits if_splits)
qed

lemma apply_step_edit:
  "filter is_edit_nick (fst (apply_step x g p c))
     = [EditNick (guild_id g) (nickname_of p c) (edit_result x = None)]"
  by (auto simp: apply_step_def change_presence_def Let_def split: option.splits)

lemma apply_step_presence:
  "length (filter is_change_presence (fst (apply_step x g p c))) \<le> 1"
  by (auto simp: apply_step_def change_presence_def Let_def split: option.splits)

lemma apply_step_acquire:
  "filter is_acquire (fst (apply_step x g p c)) = []"
  by (auto simp: apply_step_def change_presence_def Let_def split: option.splits)

lemma resolve_me_events:
  "filter is_edit_nick (fst (resolve_me x g)) = []"
  "filter is_change_presence (fst (resolve_me x g)) = []"
  "filter is_acquire (fst (resolve_me x g)) = []"
  by (auto simp: resolve_me_def split: option.splits)

text \<open>The paths of update_guild.\<close>

lemma update_guild_cases:
  obtains
    (unresolved) evs0 e where "resolve_me x g = (evs0, Inl e)"
      "update_guild ids x g =
         (if is_HTTPException e
          then (evs0 @ [Log WARNING (tag g @ ascii ''Could not fetch bot member: '' @ exn_str e)], None)
          else (evs0, Some e))"
  | (denied) evs0 me where "resolve_me x g = (evs0, Inr me)"
      "\<not> (change_nickname me \<or> manage_nicknames me)"
      "update_guild ids x g =
         (evs0 @ [Log INFO (tag g @ ascii ''Missing permission: Change Nickname (or Manage Nicknames).'')], None)"
  | (no_sample) evs0 me r where "resolve_me x g = (evs0, Inr me)"
      "change_nickname me \<or> manage_nicknames me"
      "snd (fetch_step ids x g) = (case r of None \<Rightarrow> Inr None | Some e \<Rightarrow> Inl e)"
      "update_guild ids x g = (evs0 @ fst (fetch_step ids x g), r)"
  | (sample) evs0 me price change where "resolve_me x g = (evs0, Inr me)"
      "change_nickname me \<or> manage_nicknames me"
      "snd (fetch_step ids x g) = Inr (Some (price, change))"
      "update_guild ids x g =
         (evs0 @ fst (fetch_step ids x g) @ fst (apply_step x g price change),
          snd (apply_step x g price change))"
proof -
  obtain evs0 r0 where r0: "resolve_me x g = (evs0, r0)"
    by (cases "resolve_me x g")
  show thesis
  proof (cases r0)
    case (Inl e)
    with r0 show ?thesis
      by (intro unresolved[of evs0 e]) (simp_all add: update_guild_def)
  next
    case (Inr me)
    show ?thesis
    proof (cases "change_nickname me \<or> manage_nicknames me")
      case False
      with r0 Inr show ?thesis
        by (intro denied[of evs0 me]) (simp_all add: update_guild_def)
    next
      case True
      obtain evs1 r1 where r1: "fetch_step ids x g = (evs1, r1)"
        by (cases "fetch_step ids x g")
      show ?thesis
      proof (cases r1)
        case (Inl e)
        with r0 Inr True r1 show ?thesis
          by (intro no_sample[of evs0 me "Some e"]) (auto simp: update_guild_def)
      next
        case r: (Inr s)
        show ?thesis
        proof (cases s)
          case None
          with r0 Inr True r1 r show ?thesis
            by (intro no_sample[of evs0 me None]) (auto simp: update_guild_def)
        next
          case (Some pc)
          obtain price change where pc: "pc = (price, change)" by (cases pc)
          from r0 Inr True r1 r Some pc show ?thesis
            by (intro sample[of evs0 me price change])
               (auto simp: update_guild_def split: prod.splits)
        qed
      qed
    qed
  qed
qed

lemma r_big: "round_half_even (10 ^ 30 * 1000) = 10 ^ 33"
  by (rule round_half_even_unique) simp_all

lemma big_fmt: "fmt_fixed 3 (10 ^ 30) = ascii ''1000000000000000000000000000000.000''"
  unfolding fmt_fixed_3 r_big
  by (simp add: str_nat_def digits10.simps ascii_def)

lemma big_len: "length (format_nickname (Fin (10 ^ 30)) (Fin 1)) = 38"
  using big_fmt by (simp add: format_nickname_def ascii_def)

lemma big_nick: "nickname_of (Fin (10 ^ 30)) (Fin 1) = ascii ''$1000000000000000000000000000000''"
  using big_fmt by (simp add: nickname_of_def truncate_nickname_def format_nickname_def ascii_def)

lemmas eval_defs = update_guild_def resolve_me_def fetch_step_def apply_step_def change_presence_def
  get_price_data_def enumerate_backoffs_def backoffs_def parse_row_def sample_ext_def
  sample_guild_def sample_member_def sample_row_def sample_ids_def tag_def
  is_Exception_def is_HTTPException_def is_Forbidden_def is_fetch_recoverable_def
  str_opt_exn_def status_text_def Let_def upt_rec ascii_def

lemma update_guild_edit:
  "filter is_edit_nick (fst (update_guild ids x g)) = []
   \<or> (\<exists>p c. filter is_edit_nick (fst (update_guild ids x g))
              = [EditNick (guild_id g) (nickname_of p c) (edit_result x = None)])"
proof (cases rule: update_guild_cases[of x g ids])
  case (unresolved evs0 e)
  with resolve_me_events(1)[of x g] show ?thesis by simp
next
  case (denied evs0 me)
  with resolve_me_events(1)[of x g] show ?thesis by simp
next
  case (no_sample evs0 me r)
  with resolve_me_events(1)[of x g] show ?thesis by (simp add: fetch_step_edit)
next
  case (sample evs0 me price change)
  with resolve_me_events(1)[of x g] show ?thesis by (auto simp: fetch_step_edit apply_step_edit)
qed

lemma length_nickname_of: "length (nickname_of p c) \<le> 32"
  by (simp add: nickname_of_def truncate_nickname_def)

text \<open>
  C5. Truncation is \<open>nickname[:32]\<close>, a total operation: the result is the first 32 code
  points, of length exactly 32 when the formatted nickname is longer, and every nickname
  that \<open>update_guild\<close> passes to the edit call has at most 32 code points.
\<close>

theorem nickname_at_most_32:
  "length (truncate_nickname s) = min 32 (length s)
   \<and> truncate_nickname s = take 32 s
   \<and> (32 < length s \<longrightarrow> length (truncate_nickname s) = 32)
   \<and> (EditNick gid n ok \<in> set (fst (update_guild ids x g)) \<longrightarrow> length n \<le> 32)"
proof -
  have "length n \<le> 32" if "EditNick gid n ok \<in> set (fst (update_guild ids x g))"
  proof -
    from that have mem: "EditNick gid n ok \<in> set (filter is_edit_nick (fst (update_guild ids x g)))"
      by simp
    from update_guild_edit[of ids x g] show ?thesis
    proof
      assume "filter is_edit_nick (fst (update_guild ids x g)) = []"
      with mem show ?thesis by (simp only: set_simps empty_iff)
    next
      assume "\<exists>p c. filter is_edit_nick (fst (update_guild ids x g))
                = [EditNick (guild_id g) (nickname_of p c) (edit_result x = None)]"
      then obtain p c where "filter is_edit_nick (fst (update_guild ids x g))
                = [EditNick (guild_id g) (nickname_of p c) (edit_result x = None)]"
        by blast
      with mem have "n = nickname_of p c"
        by (simp only: set_simps insert_iff empty_iff event.inject) blast
      then show ?thesis by (simp add: length_nickname_of)
    qed
  qed
  then show ?thesis
    by (simp add: truncate_nickname_def)
qed

theorem nickname_at_most_32_witness:
  "32 < length (format_nickname (Fin (10 ^ 30)) (Fin 1))
   \<and> length (truncate_nickname (format_nickname (Fin (10 ^ 30)) (Fin 1))) = 32
   \<and> EditNick 7 (ascii ''$1000000000000000000000000000000'') True
        \<in> set (fst (update_guild sample_ids
             (sample_ext (Response 200 (Inr (JArr [sample_row (Fin (10 ^ 30)) (Fin 1)]))) None)
             (sample_guild 7 (sample_member True False))))
   \<and> length (ascii ''$1000000000000000000000000000000'') \<le> 32"
proof -
  have a: "32 < length (format_nickname (Fin (10 ^ 30)) (Fin 1))"
    using big_len by simp
  have b: "EditNick 7 (ascii ''$1000000000000000000000000000000'') True
        \<in> set (fst (update_guild sample_ids
             (sample_ext (Response 200 (Inr (JArr [sample_row (Fin (10 ^ 30)) (Fin 1)]))) None)
             (sample_guild 7 (sample_member True False))))"
    using big_nick by (simp add: eval_defs)
  show ?thesis
    using a b nickname_at_most_32[of "format_nickname (Fin (10 ^ 30)) (Fin 1)"
        7 "ascii ''$1000000000000000000000000000000''" True sample_ids
        "sample_ext (Response 200 (Inr (JArr [sample_row (Fin (10 ^ 30)) (Fin 1)]))) None"
        "sample_guild 7 (sample_member True False)"]
    by blast
qed

section \<open>Reconciliation of one target\<close>

lemma resolve_me_quiet:
  "filter is_http_get (fst (resolve_me x g)) = []"
  "filter above_info (fst (resolve_me x g)) = []"
  "apply_events s (fst (resolve_me x g)) = s"
  by (auto simp: resolve_me_def apply_events_def split: option.splits)

lemma apply_events_append: "apply_events s (xs @ ys) = apply_events (apply_events s xs) ys"
  by (simp add: apply_events_def)

text \<open>
  C6. When the resolved membership of the bot has neither \<open>change_nickname\<close> nor
  \<open>manage_nicknames\<close>, \<open>update_guild\<close> returns after one log record at level INFO: it makes
  no nickname edit and no presence change, does not call \<open>get_price_data\<close> and sends no
  request to the price API, logs nothing above INFO, leaves the state of the platform as it
  was, and raises nothing.
\<close>

theorem no_permission_no_effect:
  assumes "snd (resolve_me x g) = Inr me"
    and "\<not> change_nickname me" and "\<not> manage_nicknames me"
  shows "filter is_edit_nick (fst (update_guild ids x g)) = []
       \<and> filter is_change_presence (fst (update_guild ids x g)) = []
       \<and> filter is_acquire (fst (update_guild ids x g)) = []
       \<and> filter is_http_get (fst (update_guild ids x g)) = []
       \<and> filter above_info (fst (update_guild ids x g)) = []
       \<and> apply_events s (fst (update_guild ids x g)) = s
       \<and> snd (update_guild ids x g) = None"
proof -
  obtain evs0 where r: "resolve_me x g = (evs0, Inr me)"
    using assms(1) by (cases "resolve_me x g") simp
  have u: "update_guild ids x g =
      (evs0 @ [Log INFO (tag g @ ascii ''Missing permission: Change Nickname (or Manage Nicknames).'')],
       None)"
    using r assms(2,3) by (simp add: update_guild_def)
  have e: "fst (resolve_me x g) = evs0"
    using r by simp
  show ?thesis
    using resolve_me_events[of x g] resolve_me_quiet(1,2)[of x g] resolve_me_quiet(3)[of s x g]
    unfolding u e by (simp add: apply_events_append) (simp add: apply_events_def)
qed

theorem no_permission_no_effect_witness:
  "snd (resolve_me (sample_ext (Response 200 (Inr (JArr [sample_row (Fin (1 / 2)) (Fin 1)]))) None)
         (sample_guild 7 (sample_member False False))) = Inr (sample_member False False)
   \<and> \<not> change_nickname (sample_member False False)
   \<and> \<not> manage_nicknames (sample_member False False)
   \<and> update_guild sample_ids (sample_ext (Response 200 (Inr (JArr [sample_row (Fin (1 / 2)) (Fin 1)]))) None)
         (sample_guild 7 (sample_member False False))
       = ([Log INFO (ascii ''[g] Missing permission: Change Nickname (or Manage Nicknames).'')], None)
   \<and> filter is_edit_nick (fst (update_guild sample_ids
         (sample_ext (Response 200 (Inr (JArr [sample_row (Fin (1 / 2)) (Fin 1)]))) None)
         (sample_guild 7 (sample_member False False)))) = []
   \<and> filter is_change_presence (fst (update_guild sample_ids
         (sample_ext (Response 200 (Inr (JArr [sample_row (Fin (1 / 2)) (Fin 1)]))) None)
         (sample_guild 7 (sample_member False False)))) = []
   \<and> filter is_http_get (fst (update_guild sample_ids
         (sample_ext (Response 200 (Inr (JArr [sample_row (Fin (1 / 2)) (Fin 1)]))) None)
         (sample_guild 7 (sample_member False False)))) = []"
proof -
  have a: "snd (resolve_me (sample_ext (Response 200 (Inr (JArr [sample_row (Fin (1 / 2)) (Fin 1)]))) None)
         (sample_guild 7 (sample_member False False))) = Inr (sample_member False False)"
    by (simp add: resolve_me_def sample_guild_def)
  have b: "\<not> change_nickname (sample_member False False)"
    and c: "\<not> manage_nicknames (sample_member False False)"
    by (simp_all add: sample_member_def)
  have d: "update_guild sample_ids (sample_ext (Response 200 (Inr (JArr [sample_row (Fin (1 / 2)) (Fin 1)]))) None)
         (sample_guild 7 (sample_member False False))
       = ([Log INFO (ascii ''[g] Missing permission: Change Nickname (or Manage Nicknames).'')], None)"
    by (simp add: eval_defs)
  show ?thesis
    using a b c d no_permission_no_effect[OF a b c, of sample_ids]
    by simp
qed






section \<open>The price fetch\<close>

text \<open>
  C2. A record without the key \<open>current_price\<close>, with \<open>null\<close> for a field, or with a
  non-numeric string raises \<open>KeyError\<close>, \<open>TypeError\<close> or \<open>ValueError\<close> in
  \<open>_fetch_one_id\<close>. None is an instance of the classes that \<open>get_price_data\<close> catches:
  the exception leaves \<open>get_price_data\<close> after the first request, with no retry, no
  other source and no \<open>last_err\<close>. An empty array, which \<open>_fetch_one_id\<close> turns into a
  \<open>RuntimeError\<close>, is retried on every attempt of every source.
\<close>

theorem missing_field_escapes:
  "get_price_data sample_ids
     (sample_ext (Response 200 (Inr (JArr [JObj [(ascii ''price_change_percentage_24h'',
                                                    JFloat (Fin 1))]]))) None)
     = ([HttpGet (ascii ''ripple'')], Inl (Exn KeyError (ascii [CHR 0x27] @ ascii ''current_price'' @ ascii [CHR 0x27])))
   \<and> get_price_data sample_ids
     (sample_ext (Response 200 (Inr (JArr [JObj [(ascii ''current_price'', JFloat (Fin (1 / 2))),
                                                  (ascii ''price_change_percentage_24h'', JNull)]]))) None)
     = ([HttpGet (ascii ''ripple'')],
        Inl (Exn TypeError (ascii ''float() argument must be a string or a real number'')))
   \<and> get_price_data sample_ids
     (sample_ext (Response 200 (Inr (JArr [JObj [(ascii ''current_price'', JStr (ascii ''n/a'')),
                                                  (ascii ''price_change_percentage_24h'', JFloat (Fin 1))]]))) None)
     = ([HttpGet (ascii ''ripple'')],
        Inl (Exn ValueError (ascii ''could not convert string to float'')))
   \<and> fst (get_price_data sample_ids (sample_ext (Response 200 (Inr (JArr []))) None))
     = [HttpGet (ascii ''ripple''),
        Log WARNING (ascii ''CoinGecko error for id 'ripple' (attempt 1): empty or invalid payload''),
        Sleep (3 / 2), HttpGet (ascii ''ripple''),
        Log WARNING (ascii ''CoinGecko error for id 'ripple' (attempt 2): empty or invalid payload''),
        Sleep 3, HttpGet (ascii ''ripple''),
        Log WARNING (ascii ''CoinGecko error for id 'ripple' (attempt 3): empty or invalid payload''),
        Sleep 5, HttpGet (ascii ''ripple''),
        Log WARNING (ascii ''CoinGecko error for id 'ripple' (attempt 4): empty or invalid payload''),
        HttpGet (ascii ''xrp''),
        Log WARNING (ascii ''CoinGecko error for id 'xrp' (attempt 1): empty or invalid payload''),
        Sleep (3 / 2), HttpGet (ascii ''xrp''),
        Log WARNING (ascii ''CoinGecko error for id 'xrp' (attempt 2): empty or invalid payload''),
        Sleep 3, HttpGet (ascii ''xrp''),
        Log WARNING (ascii ''CoinGecko error for id 'xrp' (attempt 3): empty or invalid payload''),
        Sleep 5, HttpGet (ascii ''xrp''),
        Log WARNING (ascii ''CoinGecko error for id 'xrp' (attempt 4): empty or invalid payload'')]"
  by (simp add: eval_defs str_nat_def digits10_small)










section \<open>The fan-out of one iteration\<close>

lemma mset_heads_tails:
  "mset (concat (map (case_list [] (\<lambda>h t. [h])) xss))
     + mset (concat (concat (map (case_list [] (\<lambda>h t. [t])) xss)))
   = mset (concat xss)"
proof (induction xss)
  case Nil
  show ?case by simp
next
  case (Cons xs xss)
  then show ?case by (cases xs) simp_all
qed

lemma mset_concat_transpose: "mset (concat (transpose xss)) = mset (concat xss)"
proof (induction xss rule: transpose.induct)
  case 1
  show ?case by simp
next
  case (2 xss)
  then show ?case by simp
next
  case (3 x xs xss)
  have "mset (concat (transpose ((x # xs) # xss)))
          = {#x#} + mset (concat (map (case_list [] (\<lambda>h t. [h])) xss))
            + mset (concat (transpose (xs # concat (map (case_list [] (\<lambda>h t. [t])) xss))))"
    by simp
  also have "\<dots> = {#x#} + mset (concat (map (case_list [] (\<lambda>h t. [h])) xss))
            + (mset xs + mset (concat (concat (map (case_list [] (\<lambda>h t. [t])) xss))))"
    using 3 by simp
  also have "\<dots> = {#x#} + mset xs + mset (concat xss)"
    using mset_heads_tails[of xss] by (simp add: ac_simps)
  finally show ?case by simp
qed

lemma gather_all_events:
  "gather tasks = (evs, r, bg) \<Longrightarrow> mset (evs @ bg) = mset (concat (map fst tasks))"
proof -
  assume g: "gather tasks = (evs, r, bg)"
  have split: "concat (take n rs) @ concat (drop n rs) = concat rs" for n and rs :: "event list list"
    by (metis append_take_drop_id concat_append)
  have "evs @ bg = concat (transpose (map fst tasks))"
    using g split[of _ "transpose (map fst tasks)"]
    by (auto simp: gather_def Let_def split: option.splits prod.splits)
  then show ?thesis
    by (simp add: mset_concat_transpose)
qed


lemma first_raise_Some:
  "first_raise tasks = Some (n, e) \<Longrightarrow> \<exists>evs. (evs, Some e) \<in> set tasks \<and> length evs = n"
proof (induction tasks arbitrary: n e rule: first_raise.induct)
  case 1
  then show ?case by simp
next
  case (2 evs ts)
  then show ?case by auto
next
  case (3 evs e' ts)
  then show ?case
    by (auto split: option.splits if_splits)
qed

lemma count_filter_mset:
  "mset xs = mset ys \<Longrightarrow> length (filter P xs) = length (filter P ys)"
  by (metis mset_filter size_mset)

lemma length_filter_concat:
  "length (filter P (concat xss)) = sum_list (map (\<lambda>xs. length (filter P xs)) xss)"
  by (induction xss) simp_all

lemma gather_count:
  assumes "gather tasks = (evs, r, bg)"
  shows "length (filter P (evs @ bg)) = sum_list (map (\<lambda>t. length (filter P (fst t))) tasks)"
proof -
  have "length (filter P (evs @ bg)) = length (filter P (concat (map fst tasks)))"
    using gather_all_events[OF assms] by (rule count_filter_mset)
  then show ?thesis
    by (simp add: length_filter_concat comp_def)
qed

subsection \<open>Iterations, evaluated\<close>

lemmas tick_defs = tick_def try_body_def gather_def tasks_of_def resolve_targets_def
  sample_env_def sample_config_def

lemma nick_half: "nickname_of (Fin (1 / 2)) (Fin 1) = ascii ''$0.500 '' @ [up_marker]"
  by (simp add: nickname_of_def truncate_nickname_def format_nickname_def fmt_500
        emoji_def ascii_def)

lemma round_100: "round_half_even (1 * 100) = 100"
  by (rule round_half_even_unique) simp_all

lemma status_one: "format_f True 2 (Fin 1) = ascii ''+1.00''"
  using round_100
  by (simp add: fmt_fixed_def Let_def str_nat_def digits10.simps zero_pad_def ascii_def)

lemma guild_id_sample: "guild_id (sample_guild i m) = i"
  by (simp add: sample_guild_def)

lemma ok_task:
  "update_guild [ascii ''xrp'']
     (sample_ext (Response 200 (Inr (JArr [sample_row (Fin (1 / 2)) (Fin 1)]))) None)
     (sample_guild 7 (sample_member True False))
   = ([Acquire, HttpGet (ascii ''xrp''),
       EditNick 7 (ascii ''$0.500 '' @ [up_marker]) True,
       ChangePresence (ascii ''24h +1.00%'') True,
       Log INFO (ascii ''[g] Nick '' @ [0x2192] @ ascii '' $0.500 '' @ [up_marker]
                 @ ascii '' | 24h '' @ [0x2192] @ ascii '' +1.00%'')], None)"
  using nick_half status_one
  by (simp add: eval_defs)

lemma fail_task:
  "update_guild [ascii ''xrp''] (sample_ext (Response 500 (Inr JNull)) None)
     (sample_guild 8 (sample_member True False))
   = ([Acquire, HttpGet (ascii ''xrp''),
       Log WARNING (ascii ''CoinGecko error for id 'xrp' (attempt 1): HTTP 500''),
       Sleep (3 / 2), HttpGet (ascii ''xrp''),
       Log WARNING (ascii ''CoinGecko error for id 'xrp' (attempt 2): HTTP 500''),
       Sleep 3, HttpGet (ascii ''xrp''),
       Log WARNING (ascii ''CoinGecko error for id 'xrp' (attempt 3): HTTP 500''),
       Sleep 5, HttpGet (ascii ''xrp''),
       Log WARNING (ascii ''CoinGecko error for id 'xrp' (attempt 4): HTTP 500''),
       Log WARNING (ascii ''[g] Price fetch failed: Failed to fetch XRP price after retries: HTTP 500''),
       ChangePresence (ascii ''API error'') True], None)"
  by (simp add: eval_defs str_int_def str_nat_def digits10.simps)

lemma two_targets_tick:
  "tick sample_config
     (sample_env (sample_ext (Response 200 (Inr (JArr [sample_row (Fin (1 / 2)) (Fin 1)]))) None)
                 (sample_ext (Response 500 (Inr JNull)) None))
   = ([Acquire, Acquire, HttpGet (ascii ''xrp''), HttpGet (ascii ''xrp''),
       EditNick 7 (ascii ''$0.500 '' @ [up_marker]) True,
       Log WARNING (ascii ''CoinGecko error for id 'xrp' (attempt 1): HTTP 500''),
       ChangePresence (ascii ''24h +1.00%'') True,
       Sleep (3 / 2),
       Log INFO (ascii ''[g] Nick '' @ [0x2192] @ ascii '' $0.500 '' @ [up_marker]
                 @ ascii '' | 24h '' @ [0x2192] @ ascii '' +1.00%''),
       HttpGet (ascii ''xrp''),
       Log WARNING (ascii ''CoinGecko error for id 'xrp' (attempt 2): HTTP 500''),
       Sleep 3, HttpGet (ascii ''xrp''),
       Log WARNING (ascii ''CoinGecko error for id 'xrp' (attempt 3): HTTP 500''),
       Sleep 5, HttpGet (ascii ''xrp''),
       Log WARNING (ascii ''CoinGecko error for id 'xrp' (attempt 4): HTTP 500''),
       Log WARNING (ascii ''[g] Price fetch failed: Failed to fetch XRP price after retries: HTTP 500''),
       ChangePresence (ascii ''API error'') True], None, [])"
  unfolding tick_defs
  by (simp add: ok_task fail_task guild_id_sample)



lemma fail_fetch:
  "snd (get_price_data [ascii ''xrp''] (sample_ext (Response 500 (Inr JNull)) None))
     = Inl (Exn RuntimeError (ascii ''Failed to fetch XRP price after retries: HTTP 500''))"
  by (simp add: eval_defs str_int_def str_nat_def digits10.simps)




subsection \<open>Counting the events of an iteration\<close>

lemma resolve_me_snd_cases:
  "resolve_me x g = (evs0, r) \<Longrightarrow> snd (resolve_me x g) = r"
  by simp

lemma update_guild_acquire:
  "length (filter is_acquire (fst (update_guild ids x g))) = (if reaches_fetch x g then 1 else 0)"
proof (cases rule: update_guild_cases[of x g ids])
  case (unresolved evs0 e)
  with resolve_me_events(3)[of x g] show ?thesis
    by (simp add: reaches_fetch_def permitted_def)
next
  case (denied evs0 me)
  with resolve_me_events(3)[of x g] show ?thesis
    by (simp add: reaches_fetch_def permitted_def)
next
  case (no_sample evs0 me r)
  with resolve_me_events(3)[of x g] show ?thesis
    by (simp add: reaches_fetch_def permitted_def fetch_step_acquire)
next
  case (sample evs0 me price change)
  with resolve_me_events(3)[of x g] show ?thesis
    by (simp add: reaches_fetch_def permitted_def fetch_step_acquire apply_step_acquire)
qed

lemma update_guild_presence:
  "length (filter is_change_presence (fst (update_guild ids x g))) \<le> (if permitted x g then 1 else 0)"
proof (cases rule: update_guild_cases[of x g ids])
  case (unresolved evs0 e)
  with resolve_me_events(2)[of x g] show ?thesis
    by (simp add: permitted_def)
next
  case (denied evs0 me)
  with resolve_me_events(2)[of x g] show ?thesis
    by (simp add: permitted_def)
next
  case (no_sample evs0 me r)
  with resolve_me_events(2)[of x g] fetch_step_presence(1)[of ids x g] show ?thesis
    by (simp add: permitted_def)
next
  case (sample evs0 me price change)
  with resolve_me_events(2)[of x g] fetch_step_presence(2)[of ids x g "(price, change)"]
    apply_step_presence[of x g price change]
  show ?thesis
    by (simp add: permitted_def)
qed

lemma sum_list_indicator:
  "sum_list (map (\<lambda>g. if P g then 1 else 0) gs) = length (filter P gs)"
  by (induction gs) simp_all

lemma resolve_targets_logs:
  "resolve_targets cfg env = (levs, targets) \<Longrightarrow> \<forall>ev \<in> set levs. \<exists>l m. ev = Log l m"
  by (auto simp: resolve_targets_def split: if_splits option.splits)

lemma filter_logs:
  assumes "\<forall>ev \<in> set levs. \<exists>l m. ev = Log l m" and "\<And>l m. \<not> P (Log l m)"
  shows "filter P levs = []"
  using assms by (auto simp: filter_empty_conv)

lemma try_body_count:
  assumes "try_body cfg env = (evs, r, bg)" and "resolve_failure env = None"
    and "\<And>l m. \<not> P (Log l m)"
  shows "length (filter P (evs @ bg))
           = sum_list (map (\<lambda>g. length (filter P
                 (fst (update_guild (COIN_IDS cfg) (ext_of env (guild_id g)) g))))
               (snd (resolve_targets cfg env)))"
proof -
  obtain levs targets where rt: "resolve_targets cfg env = (levs, targets)"
    by (cases "resolve_targets cfg env")
  have l: "filter P levs = []"
    using resolve_targets_logs[OF rt] assms(3) by (rule filter_logs)
  show ?thesis
  proof (cases "targets = []")
    case True
    with assms rt l show ?thesis
      by (auto simp: try_body_def)
  next
    case False
    obtain gevs gr gbg where g: "gather (tasks_of cfg env targets) = (gevs, gr, gbg)"
      by (cases "gather (tasks_of cfg env targets)")
    from assms(1,2) rt False g have e: "evs = levs @ gevs" "bg = gbg"
      by (auto simp: try_body_def)
    have "length (filter P (gevs @ gbg))
            = sum_list (map (\<lambda>t. length (filter P (fst t))) (tasks_of cfg env targets))"
      by (rule gather_count[OF g])
    with e l rt show ?thesis
      by (simp add: tasks_of_def comp_def)
  qed
qed

lemma tick_count:
  assumes "tick cfg env = (evs, r, bg)" and "resolve_failure env = None"
    and "\<And>l m. \<not> P (Log l m)"
  shows "length (filter P (evs @ bg))
           = sum_list (map (\<lambda>g. length (filter P
                 (fst (update_guild (COIN_IDS cfg) (ext_of env (guild_id g)) g))))
               (snd (resolve_targets cfg env)))"
proof -
  obtain evs' r' bg' where b: "try_body cfg env = (evs', r', bg')"
    by (cases "try_body cfg env") auto
  from assms(1) b have "filter P (evs @ bg) = filter P (evs' @ bg')"
    using assms(3) by (auto simp: tick_def split: option.splits if_splits)
  moreover have "length (filter P (evs' @ bg'))
           = sum_list (map (\<lambda>g. length (filter P
                 (fst (update_guild (COIN_IDS cfg) (ext_of env (guild_id g)) g))))
               (snd (resolve_targets cfg env)))"
    by (rule try_body_count[OF b assms(2)]) (rule assms(3))
  ultimately show ?thesis by simp
qed

text \<open>
  C1, as the code has it. \<open>updater_loop\<close> never calls \<open>get_price_data\<close>; \<open>update_guild\<close>
  calls it, once, after its permission check (and the check of the session). So one
  iteration makes as many acquisitions as it has targets that pass these checks, each
  reconciliation running the fetcher by itself, and the reconciliations of one iteration
  need not see the same outcome: in the counterexample two targets make two acquisitions,
  of which one succeeds (its nickname is edited) and one fails (it sets the status
  \<open>API error\<close>).
\<close>

theorem acquisitions_per_tick:
  assumes "resolve_failure env = None" and "tick cfg env = (evs, r, bg)"
  shows "length (filter is_acquire (evs @ bg))
           = length (filter (\<lambda>g. reaches_fetch (ext_of env (guild_id g)) g)
                            (snd (resolve_targets cfg env)))
       \<and> length (filter is_acquire (fst (update_guild ids x g)))
           = (if reaches_fetch x g then 1 else 0)"
proof -
  have "length (filter is_acquire (evs @ bg))
           = sum_list (map (\<lambda>g. length (filter is_acquire
                 (fst (update_guild (COIN_IDS cfg) (ext_of env (guild_id g)) g))))
               (snd (resolve_targets cfg env)))"
    using assms(2,1) by (rule tick_count) simp
  then show ?thesis
    by (simp add: update_guild_acquire sum_list_indicator)
qed

theorem single_acquisition_counterexample:
  "length (filter is_acquire (fst (tick sample_config
     (sample_env (sample_ext (Response 200 (Inr (JArr [sample_row (Fin (1 / 2)) (Fin 1)]))) None)
                 (sample_ext (Response 500 (Inr JNull)) None))))) = 2
   \<and> EditNick 7 (ascii ''$0.500 '' @ [up_marker]) True \<in> set (fst (tick sample_config
     (sample_env (sample_ext (Response 200 (Inr (JArr [sample_row (Fin (1 / 2)) (Fin 1)]))) None)
                 (sample_ext (Response 500 (Inr JNull)) None))))
   \<and> ChangePresence (ascii ''API error'') True \<in> set (fst (tick sample_config
     (sample_env (sample_ext (Response 200 (Inr (JArr [sample_row (Fin (1 / 2)) (Fin 1)]))) None)
                 (sample_ext (Response 500 (Inr JNull)) None))))"
  unfolding two_targets_tick by simp

theorem acquisitions_per_tick_witness:
  "resolve_failure (sample_env (sample_ext (Response 200 (Inr (JArr [sample_row (Fin (1 / 2)) (Fin 1)]))) None)
                 (sample_ext (Response 500 (Inr JNull)) None)) = None
   \<and> length (filter is_acquire (fst (tick sample_config
     (sample_env (sample_ext (Response 200 (Inr (JArr [sample_row (Fin (1 / 2)) (Fin 1)]))) None)
                 (sample_ext (Response 500 (Inr JNull)) None))))) = 2
   \<and> length (filter (\<lambda>g. reaches_fetch (ext_of (sample_env (sample_ext (Response 200 (Inr (JArr [sample_row (Fin (1 / 2)) (Fin 1)]))) None)
                 (sample_ext (Response 500 (Inr JNull)) None)) (guild_id g)) g)
         (snd (resolve_targets sample_config (sample_env (sample_ext (Response 200 (Inr (JArr [sample_row (Fin (1 / 2)) (Fin 1)]))) None)
                 (sample_ext (Response 500 (Inr JNull)) None))))) = 2"
proof -
  have a: "resolve_failure (sample_env (sample_ext (Response 200 (Inr (JArr [sample_row (Fin (1 / 2)) (Fin 1)]))) None)
                 (sample_ext (Response 500 (Inr JNull)) None)) = None"
    by (simp add: sample_env_def)
  have c: "length (filter is_acquire (fst (tick sample_config
     (sample_env (sample_ext (Response 200 (Inr (JArr [sample_row (Fin (1 / 2)) (Fin 1)]))) None)
                 (sample_ext (Response 500 (Inr JNull)) None))))) = 2"
    unfolding two_targets_tick by simp
  have t: "length (filter is_acquire (fst (tick sample_config
     (sample_env (sample_ext (Response 200 (Inr (JArr [sample_row (Fin (1 / 2)) (Fin 1)]))) None)
                 (sample_ext (Response 500 (Inr JNull)) None)))))
      = length (filter (\<lambda>g. reaches_fetch (ext_of (sample_env (sample_ext (Response 200 (Inr (JArr [sample_row (Fin (1 / 2)) (Fin 1)]))) None)
                 (sample_ext (Response 500 (Inr JNull)) None)) (guild_id g)) g)
         (snd (resolve_targets sample_config (sample_env (sample_ext (Response 200 (Inr (JArr [sample_row (Fin (1 / 2)) (Fin 1)]))) None)
                 (sample_ext (Response 500 (Inr JNull)) None)))))"
    using acquisitions_per_tick[OF a two_targets_tick, THEN conjunct1]
    unfolding two_targets_tick by simp
  from t[symmetric] c have d: "length (filter (\<lambda>g. reaches_fetch (ext_of (sample_env (sample_ext (Response 200 (Inr (JArr [sample_row (Fin (1 / 2)) (Fin 1)]))) None)
                 (sample_ext (Response 500 (Inr JNull)) None)) (guild_id g)) g)
         (snd (resolve_targets sample_config (sample_env (sample_ext (Response 200 (Inr (JArr [sample_row (Fin (1 / 2)) (Fin 1)]))) None)
                 (sample_ext (Response 500 (Inr JNull)) None))))) = 2"
    by (rule trans)
  show ?thesis
    by (intro conjI) (rule a, rule c, rule d)
qed

section \<open>The presence\<close>

lemma presence_unchanged:
  "filter is_change_presence evs = [] \<Longrightarrow> presence (apply_events s evs) = presence s"
proof (induction evs arbitrary: s)
  case Nil
  show ?case by (simp add: apply_events_def)
next
  case (Cons ev evs)
  from Cons.prems have a: "\<not> is_change_presence ev" and b: "filter is_change_presence evs = []"
    by (auto split: if_splits)
  from a have "presence (apply_event s ev) = presence s"
    by (cases ev) simp_all
  with Cons.IH[OF b, of "apply_event s ev"] show ?case
    by (simp add: apply_events_def)
qed

lemma last_write_wins:
  assumes "filter is_change_presence post = []"
  shows "presence (apply_events s (pre @ ChangePresence name True # post)) = Some name"
proof -
  have "apply_events s (pre @ ChangePresence name True # post)
          = apply_events ((apply_events s pre)\<lparr>presence := Some name\<rparr>) post"
    by (simp add: apply_events_def)
  with presence_unchanged[OF assms] show ?thesis by simp
qed

lemma fetch_failure_marker:
  assumes "permitted x g" and "session_ready x"
    and "snd (get_price_data ids x) = Inl e" and "is_Exception e"
  shows "\<exists>evs. update_guild ids x g
           = (evs @ [ChangePresence (ascii ''API error'') (presence_result x = None)],
              case presence_result x of None \<Rightarrow> None
              | Some e' \<Rightarrow> if is_Exception e' then None else Some e')"
proof -
  obtain evs0 me where r: "resolve_me x g = (evs0, Inr me)"
    and p: "change_nickname me \<or> manage_nicknames me"
    using assms(1) by (cases "resolve_me x g") (auto simp: permitted_def split: sum.splits)
  obtain gevs where g: "get_price_data ids x = (gevs, Inl e)"
    using assms(3) by (cases "get_price_data ids x") simp
  show ?thesis
    using r p g assms(2,4)
    by (auto simp: update_guild_def fetch_step_def change_presence_def split: option.splits)
qed

text \<open>
  C10. \<open>client.change_presence\<close> changes the one presence of the client. A reconciliation
  calls it at most once, and only when its target passes the permission check, so an
  iteration makes at most as many presence changes as it has permitted targets. The
  presence after a list of events is the name of the last successful change. When the
  fetch of a permitted target fails and the presence call succeeds, the last event of its
  reconciliation sets the presence to \<open>API error\<close>, whatever the other targets wrote.
\<close>

theorem presence_is_client_wide:
  assumes "resolve_failure env = None" and "tick cfg env = (evs, r, bg)"
  shows "length (filter is_change_presence (evs @ bg))
           \<le> length (filter (\<lambda>g. permitted (ext_of env (guild_id g)) g)
                            (snd (resolve_targets cfg env)))
       \<and> length (filter is_change_presence (fst (update_guild ids x g)))
           \<le> (if permitted x g then 1 else 0)
       \<and> (filter is_change_presence post = []
            \<longrightarrow> presence (apply_events s (pre @ ChangePresence name True # post)) = Some name)
       \<and> (permitted x g \<and> session_ready x \<and> snd (get_price_data ids x) = Inl e
              \<and> is_Exception e \<and> presence_result x = None
            \<longrightarrow> (\<exists>evs'. fst (update_guild ids x g)
                            = evs' @ [ChangePresence (ascii ''API error'') True])
                \<and> presence (apply_events s (fst (update_guild ids x g)))
                    = Some (ascii ''API error''))"
proof -
  have "length (filter is_change_presence (evs @ bg))
           = sum_list (map (\<lambda>g. length (filter is_change_presence
                 (fst (update_guild (COIN_IDS cfg) (ext_of env (guild_id g)) g))))
               (snd (resolve_targets cfg env)))"
    using assms(2,1) by (rule tick_count) simp
  also have "\<dots> \<le> sum_list (map (\<lambda>g. if permitted (ext_of env (guild_id g)) g then 1 else 0)
               (snd (resolve_targets cfg env)))"
    by (rule sum_list_mono) (rule update_guild_presence)
  finally have a: "length (filter is_change_presence (evs @ bg))
           \<le> length (filter (\<lambda>g. permitted (ext_of env (guild_id g)) g)
                            (snd (resolve_targets cfg env)))"
    by (simp add: sum_list_indicator)
  have d: "(\<exists>evs'. fst (update_guild ids x g) = evs' @ [ChangePresence (ascii ''API error'') True])
         \<and> presence (apply_events s (fst (update_guild ids x g))) = Some (ascii ''API error'')"
    if h: "permitted x g \<and> session_ready x \<and> snd (get_price_data ids x) = Inl e
              \<and> is_Exception e \<and> presence_result x = None"
  proof -
    from h fetch_failure_marker[of x g ids e] obtain evs' where
      "fst (update_guild ids x g) = evs' @ [ChangePresence (ascii ''API error'') True]"
      by auto
    then show ?thesis
      using last_write_wins[of "[]" s evs' "ascii ''API error''"] by simp
  qed
  show ?thesis
    using a update_guild_presence[of ids x g] last_write_wins[of post s pre name] d
    by blast
qed

theorem presence_is_client_wide_witness:
  "permitted (sample_ext (Response 500 (Inr JNull)) None) (sample_guild 8 (sample_member True False))
   \<and> session_ready (sample_ext (Response 500 (Inr JNull)) None)
   \<and> is_Exception (Exn RuntimeError (ascii ''Failed to fetch XRP price after retries: HTTP 500''))
   \<and> presence_result (sample_ext (Response 500 (Inr JNull)) None) = None
   \<and> presence (apply_events \<lparr>presence = None, nick = (\<lambda>i. None)\<rparr>
        (fst (update_guild [ascii ''xrp''] (sample_ext (Response 500 (Inr JNull)) None)
               (sample_guild 8 (sample_member True False))))) = Some (ascii ''API error'')
   \<and> length (filter is_change_presence (fst (tick sample_config
         (sample_env (sample_ext (Response 200 (Inr (JArr [sample_row (Fin (1 / 2)) (Fin 1)]))) None)
                     (sample_ext (Response 500 (Inr JNull)) None))))) = 2
   \<and> presence (apply_events \<lparr>presence = None, nick = (\<lambda>i. None)\<rparr> (fst (tick sample_config
         (sample_env (sample_ext (Response 200 (Inr (JArr [sample_row (Fin (1 / 2)) (Fin 1)]))) None)
                     (sample_ext (Response 500 (Inr JNull)) None)))))
       = Some (ascii ''API error'')
   \<and> nick (apply_events \<lparr>presence = None, nick = (\<lambda>i. None)\<rparr> (fst (tick sample_config
         (sample_env (sample_ext (Response 200 (Inr (JArr [sample_row (Fin (1 / 2)) (Fin 1)]))) None)
                     (sample_ext (Response 500 (Inr JNull)) None))))) 7
       = Some (ascii ''$0.500 '' @ [up_marker])"
proof -
  have a: "resolve_failure
     (sample_env (sample_ext (Response 200 (Inr (JArr [sample_row (Fin (1 / 2)) (Fin 1)]))) None)
                 (sample_ext (Response 500 (Inr JNull)) None)) = None"
    by (simp add: sample_env_def)
  have h1: "permitted (sample_ext (Response 500 (Inr JNull)) None)
              (sample_guild 8 (sample_member True False))"
    by (simp add: permitted_def resolve_me_def sample_guild_def sample_member_def)
  have h2: "session_ready (sample_ext (Response 500 (Inr JNull)) None)"
    and h5: "presence_result (sample_ext (Response 500 (Inr JNull)) None) = None"
    by (simp_all add: sample_ext_def)
  have h4: "is_Exception (Exn RuntimeError (ascii ''Failed to fetch XRP price after retries: HTTP 500''))"
    by (simp add: is_Exception_def)
  have "presence (apply_events \<lparr>presence = None, nick = (\<lambda>i. None)\<rparr>
        (fst (update_guild [ascii ''xrp''] (sample_ext (Response 500 (Inr JNull)) None)
               (sample_guild 8 (sample_member True False))))) = Some (ascii ''API error'')"
    using presence_is_client_wide[OF a two_targets_tick,
        where ids = "[ascii ''xrp'']" and x = "sample_ext (Response 500 (Inr JNull)) None"
          and g = "sample_guild 8 (sample_member True False)"
          and e = "Exn RuntimeError (ascii ''Failed to fetch XRP price after retries: HTTP 500'')"
          and s = "\<lparr>presence = None, nick = (\<lambda>i. None)\<rparr>"]
      h1 h2 fail_fetch h4 h5
    by blast
  moreover have "length (filter is_change_presence (fst (tick sample_config
         (sample_env (sample_ext (Response 200 (Inr (JArr [sample_row (Fin (1 / 2)) (Fin 1)]))) None)
                     (sample_ext (Response 500 (Inr JNull)) None))))) = 2"
    unfolding two_targets_tick by simp
  moreover have "presence (apply_events \<lparr>presence = None, nick = (\<lambda>i. None)\<rparr> (fst (tick sample_config
         (sample_env (sample_ext (Response 200 (Inr (JArr [sample_row (Fin (1 / 2)) (Fin 1)]))) None)
                     (sample_ext (Response 500 (Inr JNull)) None)))))
       = Some (ascii ''API error'')"
    unfolding two_targets_tick by (simp add: apply_events_def)
  moreover have "nick (apply_events \<lparr>presence = None, nick = (\<lambda>i. None)\<rparr> (fst (tick sample_config
         (sample_env (sample_ext (Response 200 (Inr (JArr [sample_row (Fin (1 / 2)) (Fin 1)]))) None)
                     (sample_ext (Response 500 (Inr JNull)) None))))) 7
       = Some (ascii ''$0.500 '' @ [up_marker])"
    unfolding two_targets_tick by (simp add: apply_events_def)
  ultimately show ?thesis
    using h1 h2 h4 h5 by blast
qed

section \<open>Waiting for the reconciliations\<close>


lemma gather_raise:
  assumes "gather tasks = (evs, Some e, bg)"
  shows "\<exists>t \<in> set tasks. snd t = Some e"
proof -
  from assms obtain n where "first_raise tasks = Some (n, e)"
    by (auto simp: gather_def Let_def split: option.splits)
  from first_raise_Some[OF this] show ?thesis by force
qed



lemma try_body_raise:
  assumes "try_body cfg env = (evs, Some e, bg)" and "resolve_failure env = None"
  shows "\<exists>t \<in> set (tasks_of cfg env (snd (resolve_targets cfg env))). snd t = Some e"
proof -
  obtain levs targets where rt: "resolve_targets cfg env = (levs, targets)"
    by (cases "resolve_targets cfg env")
  obtain gevs gr gbg where g: "gather (tasks_of cfg env targets) = (gevs, gr, gbg)"
    by (cases "gather (tasks_of cfg env targets)")
  from assms rt g have "gr = Some e"
    by (auto simp: try_body_def split: if_splits)
  with g gather_raise[of "tasks_of cfg env targets" gevs e gbg] rt show ?thesis
    by simp
qed




section \<open>The loop survives\<close>






end
